theory Spec2Isabelle
  imports Main "HOL-Library.Word"
begin

unbundle bit_operations_syntax

section \<open>Machine model\<close>

text \<open>
  The allocator of \<^verbatim>\<open>src/os/mem_mgr/alloc.cpp\<close> runs on a 32-bit target
  (the source comments give \<^verbatim>\<open>sizeof(size_t) + sizeof(void *)\<close> as 8 bytes): both
  \<^verbatim>\<open>size_t\<close> and pointers are 32-bit words, and \<^verbatim>\<open>unsigned\<close> has the same width.
  Memory is a store from byte addresses to the word held there; every access of the
  allocator is a whole word, and words at different addresses are different cells
  (all addresses the allocator forms from aligned blocks are multiples of 4). The
  null pointer is address 0. Pointer arithmetic and
  \<^verbatim>\<open>size_t\<close> arithmetic wrap around, as \<open>+\<close> and \<open>-\<close> on \<open>32 word\<close> do.
\<close>

type_synonym addr = "32 word"
type_synonym memory = "addr \<Rightarrow> 32 word"

definition SIZEOF_SIZE_T :: "32 word" where
  "SIZEOF_SIZE_T = 4"

definition NUM_FREE_LISTS :: nat where
  "NUM_FREE_LISTS = 4"

definition MIN_ALLOC_SIZE :: "32 word" where
  "MIN_ALLOC_SIZE = 8"

definition MALLOC_HEADER_SIZE :: "32 word" where
  "MALLOC_HEADER_SIZE = 2 * SIZEOF_SIZE_T"

definition ALIGNMENT :: "32 word" where
  "ALIGNMENT = SIZEOF_SIZE_T"

definition ALIGNMENT_MASK :: "32 word" where
  "ALIGNMENT_MASK = ALIGNMENT - 1"

definition UNALIGNED :: "addr \<Rightarrow> 32 word" where
  "UNALIGNED p = p AND ALIGNMENT_MASK"

definition ROUND_UP_TO_ALIGN :: "32 word \<Rightarrow> 32 word" where
  "ROUND_UP_TO_ALIGN sz = ((sz - 1) AND NOT ALIGNMENT_MASK) + ALIGNMENT"

section \<open>Size classes\<close>

definition which_skiplist_by_size :: "32 word \<Rightarrow> nat" where
  "which_skiplist_by_size sz =
     (if sz \<ge> 1024 then 3
      else if sz \<ge> 64 then 2
      else if sz \<ge> 16 then 1
      else 0)"

section \<open>Objects in memory\<close>

text \<open>
  A \<^verbatim>\<open>free_entry\<close> at address \<open>a\<close> keeps \<^verbatim>\<open>size\<close> in the word at \<open>a\<close> and
  \<^verbatim>\<open>next[i]\<close> in the word at \<open>a + sizeof(size_t) + i * sizeof(pointer)\<close>.
  The \<^verbatim>\<open>Skiplist\<close> object at address \<open>sl\<close> keeps \<^verbatim>\<open>total_mem\<close>, \<^verbatim>\<open>total_free\<close> and
  then \<^verbatim>\<open>heads[0..3]\<close>. A slot is the address of a \<^verbatim>\<open>free_entry *\<close>: what a
  \<^verbatim>\<open>free_entry **\<close> of the source holds.
\<close>

definition next_slot :: "addr \<Rightarrow> nat \<Rightarrow> addr" where
  "next_slot e i = e + SIZEOF_SIZE_T + SIZEOF_SIZE_T * of_nat i"

definition head_slot :: "addr \<Rightarrow> nat \<Rightarrow> addr" where
  "head_slot sl i = sl + 2 * SIZEOF_SIZE_T + SIZEOF_SIZE_T * of_nat i"

definition skiplist :: "memory \<Rightarrow> addr \<Rightarrow> nat" where
  "skiplist mem e = which_skiplist_by_size (mem e)"

text \<open>
  \<^verbatim>\<open>list_walker\<close>: a local object that is only ever passed by reference; no
  pointer into it is stored, so it is a value. \<open>links lw ! i\<close> is
  \<^verbatim>\<open>lw.links.lists[i]\<close>.
\<close>

record list_walker =
  skiplist_num :: nat
  curr_block :: addr
  links :: "addr list"

lemma which_skiplist_le3: "which_skiplist_by_size sz \<le> 3"
  by (simp add: which_skiplist_by_size_def)

lemma skiplist_le3: "skiplist mem e \<le> 3"
  by (simp add: skiplist_def which_skiplist_le3)

text \<open>
  \<^verbatim>\<open>free_entry::copy_from\<close>: \<open>dst\<close> is \<^verbatim>\<open>this\<close>, \<open>src\<close> is \<^verbatim>\<open>fe\<close>. The loop
  condition reads \<^verbatim>\<open>fe.size\<close> again at every iteration.
\<close>

function copy_from_loop :: "nat \<Rightarrow> memory \<Rightarrow> addr \<Rightarrow> addr \<Rightarrow> memory" where
  "copy_from_loop i mem dst src =
     (if i < skiplist mem src
      then copy_from_loop (Suc i) (mem(next_slot dst i := mem (next_slot src i))) dst src
      else mem)"
  by pat_completeness auto
termination
proof (relation "measure (\<lambda>(i, mem, dst, src). 4 - i)")
  show "wf (measure (\<lambda>(i, mem, dst, src). 4 - i))" by simp
next
  fix i :: nat and mem :: memory and dst src :: addr
  assume "i < skiplist mem src"
  moreover have "skiplist mem src \<le> 3" by (rule skiplist_le3)
  ultimately show "((Suc i, mem(next_slot dst i := mem (next_slot src i)), dst, src),
                    (i, mem, dst, src)) \<in> measure (\<lambda>(i, mem, dst, src). 4 - i)"
    by simp
qed

declare copy_from_loop.simps [simp del]

definition copy_from :: "memory \<Rightarrow> addr \<Rightarrow> addr \<Rightarrow> memory" where
  "copy_from mem dst src = copy_from_loop 0 (mem(dst := mem src)) dst src"

text \<open>
  The copy constructor \<^verbatim>\<open>free_entry(const free_entry& fe)\<close> builds the new
  object at \<open>tmp\<close> (the stack slot of the temporary) by \<^verbatim>\<open>copy_from\<close>; whatever the
  stack held there before stays in the words it does not write.
\<close>

definition free_entry_copy :: "memory \<Rightarrow> addr \<Rightarrow> addr \<Rightarrow> memory" where
  "free_entry_copy mem tmp fe = copy_from mem tmp fe"

section \<open>The list walker\<close>

definition list_links :: "addr \<Rightarrow> addr list" where
  "list_links sl = map (head_slot sl) [0..<NUM_FREE_LISTS]"

definition get_walker :: "memory \<Rightarrow> addr \<Rightarrow> nat \<Rightarrow> list_walker" where
  "get_walker mem sl skip_list =
     \<lparr> skiplist_num = skip_list,
       curr_block = mem (head_slot sl skip_list),
       links = list_links sl \<rparr>"

definition fits_size :: "memory \<Rightarrow> list_walker \<Rightarrow> 32 word \<Rightarrow> bool" where
  "fits_size mem lw sz = (mem (curr_block lw) \<ge> sz)"

definition advance_link :: "memory \<Rightarrow> nat \<Rightarrow> list_walker \<Rightarrow> list_walker" where
  "advance_link mem i lw =
     (if mem (links lw ! i) < curr_block lw
      then lw\<lparr> links := (links lw)[i := next_slot (mem (links lw ! i)) i] \<rparr>
      else lw)"

definition advance_links :: "memory \<Rightarrow> list_walker \<Rightarrow> list_walker" where
  "advance_links mem lw = fold (advance_link mem) [0..<NUM_FREE_LISTS] lw"

definition move_next :: "memory \<Rightarrow> list_walker \<Rightarrow> list_walker" where
  "move_next mem lw =
     advance_links mem
       (lw\<lparr> curr_block := mem (next_slot (curr_block lw) (skiplist_num lw)) \<rparr>)"

section \<open>Primitive mutators\<close>

text \<open>One iteration of the recurring loop bodies.\<close>

definition splice_from_links :: "list_walker \<Rightarrow> addr \<Rightarrow> nat \<Rightarrow> memory \<Rightarrow> memory" where
  \<comment> \<open>\<^verbatim>\<open>entry.next[i] = *(lw.links.lists[i]); *(lw.links.lists[i]) = &entry;\<close>\<close>
  "splice_from_links lw entry i mem =
     (mem(next_slot entry i := mem (links lw ! i)))(links lw ! i := entry)"

definition take_over_next :: "list_walker \<Rightarrow> addr \<Rightarrow> addr \<Rightarrow> nat \<Rightarrow> memory \<Rightarrow> memory" where
  \<comment> \<open>\<^verbatim>\<open>dest.next[i] = src.next[i]; *(lw.links.lists[i]) = &dest;\<close>\<close>
  "take_over_next lw dest src i mem =
     (mem(next_slot dest i := mem (next_slot src i)))(links lw ! i := dest)"

definition unlink_to_next :: "list_walker \<Rightarrow> addr \<Rightarrow> nat \<Rightarrow> memory \<Rightarrow> memory" where
  \<comment> \<open>\<^verbatim>\<open>*(lw.links.lists[i]) = entry.next[i];\<close>\<close>
  "unlink_to_next lw entry i mem = mem(links lw ! i := mem (next_slot entry i))"

definition insert_and_coalesce_with_current ::
  "memory \<Rightarrow> list_walker \<Rightarrow> addr \<Rightarrow> 32 word \<Rightarrow> memory \<times> list_walker" where
  "insert_and_coalesce_with_current mem lw entry sz =
     (let m1 = mem(entry := sz + mem (curr_block lw));
          curr_block_skiplist = skiplist m1 (curr_block lw);
          new_skiplist = skiplist m1 entry;
          m2 = fold (take_over_next lw entry (curr_block lw)) [0..<Suc curr_block_skiplist] m1;
          m3 = fold (splice_from_links lw entry) [curr_block_skiplist + 1..<Suc new_skiplist] m2
      in (m3, lw\<lparr> curr_block := entry \<rparr>))"

definition expand_entry :: "memory \<Rightarrow> list_walker \<Rightarrow> addr \<Rightarrow> 32 word \<Rightarrow> memory" where
  "expand_entry mem lw entry expand_amt =
     (let old_skiplist = skiplist mem entry;
          m1 = mem(entry := mem entry + expand_amt);
          new_skiplist = skiplist m1 entry
      in fold (splice_from_links lw entry) [old_skiplist + 1..<Suc new_skiplist] m1)"

definition shrink_entry :: "memory \<Rightarrow> list_walker \<Rightarrow> addr \<Rightarrow> 32 word \<Rightarrow> memory" where
  "shrink_entry mem lw entry shrink_amt =
     (let old_skiplist = skiplist mem entry;
          m1 = mem(entry := mem entry - shrink_amt);
          new_skiplist = skiplist m1 entry
      in fold (unlink_to_next lw entry) [new_skiplist + 1..<Suc old_skiplist] m1)"

text \<open>
  \<^verbatim>\<open>insert_new_block\<close> and \<^verbatim>\<open>allocate_entire_block\<close> read the bound of their loop
  from memory at every iteration.
\<close>

function insert_new_block_loop :: "nat \<Rightarrow> memory \<Rightarrow> list_walker \<Rightarrow> addr \<Rightarrow> memory" where
  "insert_new_block_loop i mem lw new_block =
     (if i \<le> skiplist mem new_block
      then insert_new_block_loop (Suc i) (splice_from_links lw new_block i mem) lw new_block
      else mem)"
  by pat_completeness auto
termination
proof (relation "measure (\<lambda>(i, mem, lw, new_block). 4 - i)")
  show "wf (measure (\<lambda>(i, mem, lw, new_block). 4 - i))" by simp
next
  fix i :: nat and mem :: memory and lw :: list_walker and new_block :: addr
  assume "i \<le> skiplist mem new_block"
  moreover have "skiplist mem new_block \<le> 3" by (rule skiplist_le3)
  ultimately show "((Suc i, splice_from_links lw new_block i mem, lw, new_block),
                    (i, mem, lw, new_block)) \<in> measure (\<lambda>(i, mem, lw, new_block). 4 - i)"
    by simp
qed

declare insert_new_block_loop.simps [simp del]

definition insert_new_block :: "memory \<Rightarrow> list_walker \<Rightarrow> addr \<Rightarrow> 32 word \<Rightarrow> memory" where
  "insert_new_block mem lw new_block sz =
     insert_new_block_loop 0 (mem(new_block := sz)) lw new_block"

function allocate_entire_block_loop :: "nat \<Rightarrow> memory \<Rightarrow> list_walker \<Rightarrow> memory" where
  "allocate_entire_block_loop i mem lw =
     (if i \<le> skiplist mem (curr_block lw)
      then allocate_entire_block_loop (Suc i) (unlink_to_next lw (curr_block lw) i mem) lw
      else mem)"
  by pat_completeness auto
termination
proof (relation "measure (\<lambda>(i, mem, lw). 4 - i)")
  show "wf (measure (\<lambda>(i, mem, lw). 4 - i))" by simp
next
  fix i :: nat and mem :: memory and lw :: list_walker
  assume "i \<le> skiplist mem (curr_block lw)"
  moreover have "skiplist mem (curr_block lw) \<le> 3" by (rule skiplist_le3)
  ultimately show "((Suc i, unlink_to_next lw (curr_block lw) i mem, lw), (i, mem, lw))
                    \<in> measure (\<lambda>(i, mem, lw). 4 - i)"
    by simp
qed

declare allocate_entire_block_loop.simps [simp del]

definition allocate_entire_block :: "memory \<Rightarrow> list_walker \<Rightarrow> memory" where
  "allocate_entire_block mem lw = allocate_entire_block_loop 0 mem lw"

definition copy_and_resize ::
  "memory \<Rightarrow> list_walker \<Rightarrow> addr \<Rightarrow> addr \<Rightarrow> 32 word \<Rightarrow> memory" where
  "copy_and_resize mem lw dest src new_size =
     (if new_size = mem src then copy_from mem dest src
      else
        let m1 = mem(dest := new_size);
            expanding = (new_size > m1 src);
            old_skiplist = skiplist m1 src;
            new_skiplist = skiplist m1 dest
        in if expanding
           then fold (splice_from_links lw dest) [old_skiplist + 1..<Suc new_skiplist]
                  (fold (take_over_next lw dest src) [0..<Suc old_skiplist] m1)
           else fold (unlink_to_next lw src) [new_skiplist + 1..<Suc old_skiplist]
                  (fold (take_over_next lw dest src) [0..<Suc new_skiplist] m1))"

definition allocate_current ::
  "memory \<Rightarrow> addr \<Rightarrow> list_walker \<Rightarrow> 32 word \<Rightarrow> memory \<times> addr" where
  "allocate_current mem tmp lw sz =
     (if mem (curr_block lw) < sz + MIN_ALLOC_SIZE
      then (allocate_entire_block mem lw, curr_block lw)
      else
        let m1 = free_entry_copy mem tmp (curr_block lw);
            new_entry = curr_block lw + sz
        in (copy_and_resize m1 lw new_entry tmp (m1 tmp - sz), curr_block lw))"

definition resize_allocated_block ::
  "memory \<Rightarrow> addr \<Rightarrow> list_walker \<Rightarrow> addr \<Rightarrow> 32 word \<Rightarrow> 32 word \<Rightarrow> memory \<times> list_walker" where
  "resize_allocated_block mem tmp lw allocated_block old_size new_size =
     (if allocated_block + old_size \<noteq> curr_block lw then (mem, lw)
      else if old_size > new_size
      then
        let size_diff = old_size - new_size;
            m1 = free_entry_copy mem tmp (curr_block lw);
            new_block = curr_block lw - size_diff
        in (copy_and_resize m1 lw new_block tmp (m1 tmp - size_diff),
            lw\<lparr> curr_block := new_block \<rparr>)
      else
        let size_diff = new_size - old_size
        in if mem (curr_block lw) - size_diff < MIN_ALLOC_SIZE
           then (allocate_entire_block mem lw, lw)
           else
             let m1 = free_entry_copy mem tmp (curr_block lw);
                 new_block = curr_block lw + size_diff
             in (copy_and_resize m1 lw new_block tmp (m1 tmp - size_diff),
                 lw\<lparr> curr_block := new_block \<rparr>))"

section \<open>The free-block index: \<^verbatim>\<open>Skiplist::malloc\<close>, \<^verbatim>\<open>free\<close>, \<^verbatim>\<open>resize\<close>\<close>

text \<open>
  The \<^verbatim>\<open>while (lw.curr_block)\<close> loops follow pointers read from memory and need not
  end on a cyclic list, so they take fuel: one unit per evaluation of the loop
  condition, \<open>None\<close> when it runs out.
\<close>

fun malloc_loop ::
  "nat \<Rightarrow> memory \<Rightarrow> addr \<Rightarrow> list_walker \<Rightarrow> 32 word \<Rightarrow> (memory \<times> addr) option" where
  "malloc_loop 0 mem tmp lw sz = None"
| "malloc_loop (Suc fuel) mem tmp lw sz =
     (if curr_block lw \<noteq> 0
      then if fits_size mem lw sz
           then Some (allocate_current mem tmp lw sz)
           else malloc_loop fuel mem tmp (move_next mem lw) sz
      else Some (mem, 0))"

definition Skiplist_malloc ::
  "nat \<Rightarrow> memory \<Rightarrow> addr \<Rightarrow> addr \<Rightarrow> 32 word \<Rightarrow> (memory \<times> addr) option" where
  "Skiplist_malloc fuel mem sl tmp sz =
     (let skip_list = which_skiplist_by_size sz;
          lw = get_walker mem sl skip_list
      in malloc_loop fuel mem tmp lw sz)"

text \<open>
  \<^verbatim>\<open>while (lw.curr_block && (lw.curr_block <= p)) lw.move_next();\<close>, the loop of
  both \<^verbatim>\<open>Skiplist::free\<close> and \<^verbatim>\<open>Skiplist::resize\<close>.
\<close>

fun walk_past :: "nat \<Rightarrow> memory \<Rightarrow> list_walker \<Rightarrow> addr \<Rightarrow> list_walker option" where
  "walk_past 0 mem lw p = None"
| "walk_past (Suc fuel) mem lw p =
     (if curr_block lw \<noteq> 0 \<and> curr_block lw \<le> p
      then walk_past fuel mem (move_next mem lw) p
      else Some lw)"

definition free_at_walker :: "memory \<Rightarrow> list_walker \<Rightarrow> 32 word \<Rightarrow> addr \<Rightarrow> memory" where
  \<comment> \<open>the body of \<^verbatim>\<open>Skiplist::free\<close> after its loop\<close>
  "free_at_walker mem lw sz p =
     (let prev = links lw ! 0 - SIZEOF_SIZE_T
      in if curr_block lw \<noteq> 0
         then
           if prev + mem prev = p
           then
             if p + sz = curr_block lw
             then
               let prev_skip_list = skiplist mem prev;
                   m1 = mem(prev := mem prev + sz);
                   m2 = m1(prev := m1 prev + m1 (curr_block lw));
                   curr_block_skip_list = skiplist m2 (curr_block lw);
                   new_skip_list = skiplist m2 prev;
                   m3 = fold (\<lambda>i m. m(next_slot prev i := m (next_slot (curr_block lw) i)))
                          [0..<Suc curr_block_skip_list] m2;
                   m4 = fold (\<lambda>i m. m(next_slot prev i := m (links lw ! i)))
                          [curr_block_skip_list + 1..<Suc new_skip_list] m3
               in fold (\<lambda>i m. m(links lw ! i := prev))
                    [prev_skip_list + 1..<Suc new_skip_list] m4
             else expand_entry mem lw prev sz
           else
             if p + sz = curr_block lw
             then fst (insert_and_coalesce_with_current mem lw p sz)
             else insert_new_block mem lw p sz
         else
           if prev + sz = p
           then expand_entry mem lw prev sz
           else insert_new_block mem lw p sz)"

definition Skiplist_free ::
  "nat \<Rightarrow> memory \<Rightarrow> addr \<Rightarrow> 32 word \<Rightarrow> addr \<Rightarrow> memory option" where
  "Skiplist_free fuel mem sl sz p =
     (case walk_past fuel mem (get_walker mem sl 0) p of
        None \<Rightarrow> None
      | Some lw \<Rightarrow> Some (free_at_walker mem lw sz p))"

definition resize_at_walker ::
  "memory \<Rightarrow> addr \<Rightarrow> list_walker \<Rightarrow> 32 word \<Rightarrow> 32 word \<Rightarrow> addr \<Rightarrow> memory \<times> addr" where
  \<comment> \<open>the body of \<^verbatim>\<open>Skiplist::resize\<close> after its loop\<close>
  "resize_at_walker mem tmp lw old_size new_size p =
     (let expanding = (new_size > old_size)
      in if curr_block lw \<noteq> 0 \<and> p + old_size = curr_block lw
         then (fst (resize_allocated_block mem tmp lw p old_size new_size), p)
         else if expanding then (mem, 0)
         else
           let size_diff = old_size - new_size
           in if size_diff < MIN_ALLOC_SIZE then (mem, p)
              else (insert_new_block mem lw (p + new_size) size_diff, p))"

definition Skiplist_resize ::
  "nat \<Rightarrow> memory \<Rightarrow> addr \<Rightarrow> addr \<Rightarrow> 32 word \<Rightarrow> 32 word \<Rightarrow> addr \<Rightarrow> (memory \<times> addr) option" where
  "Skiplist_resize fuel mem sl tmp old_size new_size p =
     (let old_skip_list = which_skiplist_by_size old_size
      in case walk_past fuel mem (get_walker mem sl old_skip_list) p of
           None \<Rightarrow> None
         | Some lw \<Rightarrow> Some (resize_at_walker mem tmp lw old_size new_size p))"

section \<open>The public functions\<close>

text \<open>
  \<^verbatim>\<open>_malloc\<close>, \<^verbatim>\<open>_calloc\<close>, \<^verbatim>\<open>_free\<close> and \<^verbatim>\<open>_realloc\<close> of the source (a name cannot
  start with an underscore here). \<open>sl\<close> is the address of the static
  \<^verbatim>\<open>free_list_start\<close>, \<open>tmp\<close> the stack slot of the temporary entries.
\<close>

definition pub_malloc ::
  "nat \<Rightarrow> memory \<Rightarrow> addr \<Rightarrow> addr \<Rightarrow> 32 word \<Rightarrow> (memory \<times> addr) option" where
  "pub_malloc fuel mem sl tmp req_size =
     (if req_size = 0 then Some (mem, 0)
      else
        let sz = ROUND_UP_TO_ALIGN req_size + MALLOC_HEADER_SIZE
        in case Skiplist_malloc fuel mem sl tmp sz of
             None \<Rightarrow> None
           | Some (m1, p) \<Rightarrow> Some (m1(p := sz), p + MALLOC_HEADER_SIZE))"

definition pub_calloc ::
  "nat \<Rightarrow> memory \<Rightarrow> addr \<Rightarrow> addr \<Rightarrow> 32 word \<Rightarrow> (memory \<times> addr) option" where
  "pub_calloc fuel mem sl tmp req_size =
     (if req_size = 0 then Some (mem, 0)
      else
        let sz = ROUND_UP_TO_ALIGN req_size + MALLOC_HEADER_SIZE
        in case Skiplist_malloc fuel mem sl tmp sz of
             None \<Rightarrow> None
           | Some (m1, p) \<Rightarrow>
               if p = 0 then Some (m1, 0)
               else
                 let count = sz div ALIGNMENT;
                     m2 = fold (\<lambda>i m. m(p + SIZEOF_SIZE_T * of_nat i := 0)) [1..<unat count] m1
                 in Some (m2(p := sz), p + MALLOC_HEADER_SIZE))"

text \<open>
  The two operands of \<^verbatim>\<open>UNALIGNED(p) || (p == nullptr)\<close> are tested in turn, as the
  short-circuit operator does.
\<close>

definition pub_free :: "nat \<Rightarrow> memory \<Rightarrow> addr \<Rightarrow> addr \<Rightarrow> memory option" where
  "pub_free fuel mem sl p =
     (if UNALIGNED p \<noteq> 0 then Some mem
      else if p = 0 then Some mem
      else
        let q = p - MALLOC_HEADER_SIZE;
            sz = mem q
        in Skiplist_free fuel mem sl sz q)"

definition pub_realloc ::
  "nat \<Rightarrow> memory \<Rightarrow> addr \<Rightarrow> addr \<Rightarrow> 32 word \<Rightarrow> addr \<Rightarrow> (memory \<times> addr) option" where
  "pub_realloc fuel mem sl tmp req_size p =
     (if p = 0 then pub_malloc fuel mem sl tmp req_size
      else if req_size = 0 then
        (case pub_free fuel mem sl p of None \<Rightarrow> None | Some m1 \<Rightarrow> Some (m1, 0))
      else if UNALIGNED p \<noteq> 0 then Some (mem, p)
      else
        let q = p - MALLOC_HEADER_SIZE;
            old_size = mem q;
            new_size = ROUND_UP_TO_ALIGN req_size + MALLOC_HEADER_SIZE
        in if new_size = old_size then Some (mem, p)
           else
             case Skiplist_resize fuel mem sl tmp old_size new_size q of
               None \<Rightarrow> None
             | Some (m1, ret) \<Rightarrow>
                 if ret = 0
                 then
                   (case Skiplist_malloc fuel m1 sl tmp new_size of
                      None \<Rightarrow> None
                    | Some (m2, ret2) \<Rightarrow>
                        if ret2 = 0 then Some (m2, 0)
                        else
                          let m3 = m2(ret2 := new_size);
                              copy_size = (if new_size < old_size then new_size else old_size);
                              count = (copy_size - MALLOC_HEADER_SIZE) div SIZEOF_SIZE_T;
                              r = ret2 + MALLOC_HEADER_SIZE;
                              m4 = fold (\<lambda>i m. m(r + SIZEOF_SIZE_T * of_nat i :=
                                                    m (p + SIZEOF_SIZE_T * of_nat i)))
                                     [0..<unat count] m3
                          in (case Skiplist_free fuel m4 sl old_size q of
                                None \<Rightarrow> None
                              | Some m5 \<Rightarrow> Some (m5, r)))
                 else Some (m1, ret))"

section \<open>Footprints and example heaps\<close>

text \<open>
  The words of a \<^verbatim>\<open>free_entry\<close> object at \<open>e\<close>, as the struct declares it: \<^verbatim>\<open>size\<close>
  and the \<^verbatim>\<open>NUM_FREE_LISTS\<close> slots of \<^verbatim>\<open>next\<close>.
\<close>

definition entry_words :: "addr \<Rightarrow> addr list" where
  "entry_words e = e # map (next_slot e) [0..<NUM_FREE_LISTS]"

text \<open>
  The heaps below are used as concrete inputs. In all of them the \<^verbatim>\<open>Skiplist\<close> object
  is at \<open>0x20000000\<close>, so \<^verbatim>\<open>heads[0..3]\<close> are the words at \<open>0x20000008\<close>,
  \<open>0x2000000C\<close>, \<open>0x20000010\<close> and \<open>0x20000014\<close>, and the stack temporary is at
  \<open>0x2001F000\<close>; every word not listed is 0.
\<close>

definition heap_one_block :: memory where
  \<comment> \<open>one free block of 16 bytes at \<open>0x1000\<close>, on lists 0 and 1\<close>
  "heap_one_block =
     (\<lambda>_. 0)(0x1000 := 16,
              0x20000008 := 0x1000, 0x2000000C := 0x1000)"

definition heap_live_only :: memory where
  \<comment> \<open>a live block of 32 bytes at \<open>0x1000\<close> (user pointer \<open>0x1008\<close>), nothing free\<close>
  "heap_live_only = (\<lambda>_. 0)(0x1000 := 32)"

definition heap_live_then_free :: memory where
  \<comment> \<open>an arena of 96 bytes at \<open>0x1000\<close>: a live block of 32 bytes, then a free block of
      64 bytes at \<open>0x1020\<close> on lists 0, 1 and 2; the stack slot that will hold
      \<^verbatim>\<open>temp.next[2]\<close> contains \<open>0xDEADBEEF\<close>\<close>
  "heap_live_then_free =
     (\<lambda>_. 0)(0x1000 := 32, 0x1020 := 64,
              0x20000008 := 0x1020, 0x2000000C := 0x1020, 0x20000010 := 0x1020,
              0x2001F00C := 0xDEADBEEF)"

definition heap_two_large :: memory where
  \<comment> \<open>two free blocks of 64 bytes, at \<open>0x1000\<close> and \<open>0x2000\<close>, both on lists 0, 1, 2;
      the stack slot that will hold \<^verbatim>\<open>temp.next[2]\<close> contains \<open>0xDEADBEEF\<close>\<close>
  "heap_two_large =
     (\<lambda>_. 0)(0x1000 := 64, 0x1004 := 0x2000, 0x1008 := 0x2000, 0x100C := 0x2000,
              0x2000 := 64,
              0x20000008 := 0x1000, 0x2000000C := 0x1000, 0x20000010 := 0x1000,
              0x2001F00C := 0xDEADBEEF)"

definition heap_small_between :: memory where
  \<comment> \<open>free blocks of 16, 8, 8 and 32 bytes at \<open>0x1000\<close>, \<open>0x1100\<close>, \<open>0x1200\<close>,
      \<open>0x1300\<close>: list 0 holds all four, list 1 holds the first and the last\<close>
  "heap_small_between =
     (\<lambda>_. 0)(0x1000 := 16, 0x1004 := 0x1100, 0x1008 := 0x1300,
              0x1100 := 8, 0x1104 := 0x1200,
              0x1200 := 8, 0x1204 := 0x1300,
              0x1300 := 32,
              0x20000008 := 0x1000, 0x2000000C := 0x1000)"

definition heap_small_then_exact :: memory where
  \<comment> \<open>free blocks of 8 bytes at \<open>0x1000\<close> and 16 bytes at \<open>0x1100\<close>: list 0 holds
      both, list 1 holds the second\<close>
  "heap_small_then_exact =
     (\<lambda>_. 0)(0x1000 := 8, 0x1004 := 0x1100,
              0x1100 := 16,
              0x20000008 := 0x1000, 0x2000000C := 0x1100)"

definition heap_fresh_arena :: memory where
  \<comment> \<open>an arena of 4096 bytes at \<open>0x1000\<close> that is one free block, on all four lists;
      the stack slot that will hold \<^verbatim>\<open>temp.next[3]\<close> contains \<open>0xDEADBEEF\<close>\<close>
  "heap_fresh_arena =
     (\<lambda>_. 0)(0x1000 := 4096,
              0x20000008 := 0x1000, 0x2000000C := 0x1000, 0x20000010 := 0x1000,
              0x20000014 := 0x1000,
              0x2001F010 := 0xDEADBEEF)"

definition heap_arena_and_block :: memory where
  \<comment> \<open>free blocks of 4096 bytes at \<open>0x1000\<close> and 2048 bytes at \<open>0x3000\<close>, both on all
      four lists; the stack slot that will hold \<^verbatim>\<open>temp.next[3]\<close> contains
      \<open>0xDEADBEEF\<close>\<close>
  "heap_arena_and_block =
     (\<lambda>_. 0)(0x1000 := 4096, 0x1004 := 0x3000, 0x1008 := 0x3000, 0x100C := 0x3000,
              0x1010 := 0x3000,
              0x3000 := 2048,
              0x20000008 := 0x1000, 0x2000000C := 0x1000, 0x20000010 := 0x1000,
              0x20000014 := 0x1000,
              0x2001F010 := 0xDEADBEEF)"

section \<open>Basic facts\<close>

lemma length_list_links: "length (list_links sl) = NUM_FREE_LISTS"
  by (simp add: list_links_def)

lemma length_links_advance_link: "length (links (advance_link mem i lw)) = length (links lw)"
  by (simp add: advance_link_def)

lemma length_links_fold_advance:
  "length (links (fold (advance_link mem) is lw)) = length (links lw)"
  by (induction "is" arbitrary: lw) (simp_all add: length_links_advance_link)

lemma length_links_move_next: "length (links (move_next mem lw)) = length (links lw)"
  by (simp add: move_next_def advance_links_def length_links_fold_advance)

lemma snd_allocate_current: "snd (allocate_current mem tmp lw sz) = curr_block lw"
  by (simp add: allocate_current_def Let_def)

text \<open>A null result of \<^verbatim>\<open>Skiplist::malloc\<close> comes from the end of the walk, which writes nothing.\<close>

lemma malloc_loop_null_unchanged:
  "malloc_loop fuel mem tmp lw sz = Some (m', 0) \<Longrightarrow> m' = mem"
proof (induction fuel arbitrary: lw)
  case 0
  then show ?case by simp
next
  case (Suc fuel)
  show ?case
  proof (cases "curr_block lw = 0")
    case True
    with Suc.prems show ?thesis by simp
  next
    case nz: False
    show ?thesis
    proof (cases "fits_size mem lw sz")
      case True
      with nz Suc.prems have "allocate_current mem tmp lw sz = (m', 0)" by simp
      then have "snd (allocate_current mem tmp lw sz) = 0" by simp
      with nz show ?thesis by (simp add: snd_allocate_current)
    next
      case False
      with nz Suc.prems have "malloc_loop fuel mem tmp (move_next mem lw) sz = Some (m', 0)"
        by simp
      then show ?thesis by (rule Suc.IH)
    qed
  qed
qed

lemma Skiplist_malloc_null_unchanged:
  "Skiplist_malloc fuel mem sl tmp sz = Some (m', 0) \<Longrightarrow> m' = mem"
  unfolding Skiplist_malloc_def Let_def by (rule malloc_loop_null_unchanged)

text \<open>\<^verbatim>\<open>Skiplist::resize\<close> returns null for a non-null block only where it refuses to expand.\<close>

lemma resize_at_walker_null_unchanged:
  "resize_at_walker mem tmp lw old_size new_size p = (m', 0) \<Longrightarrow> p \<noteq> 0 \<Longrightarrow> m' = mem"
  by (auto simp: resize_at_walker_def Let_def split: if_splits)

lemma Skiplist_resize_null_unchanged:
  "Skiplist_resize fuel mem sl tmp old_size new_size p = Some (m', 0) \<Longrightarrow> p \<noteq> 0 \<Longrightarrow> m' = mem"
  by (auto simp: Skiplist_resize_def Let_def split: option.splits
           dest: resize_at_walker_null_unchanged)

section \<open>What the loops write\<close>

lemma next_slot_neq_self: "i < 4 \<Longrightarrow> next_slot e i \<noteq> e"
proof -
  assume "i < 4"
  then consider "i = 0" | "i = 1" | "i = 2" | "i = 3" by linarith
  then show ?thesis
    by cases (simp_all add: next_slot_def SIZEOF_SIZE_T_def)
qed

lemma copy_from_loop_other:
  "(\<And>j. i \<le> j \<Longrightarrow> j < 3 \<Longrightarrow> a \<noteq> next_slot dst j) \<Longrightarrow> copy_from_loop i m dst src a = m a"
proof (induction i m dst src rule: copy_from_loop.induct)
  case (1 i mem dst src)
  show ?case
  proof (cases "i < skiplist mem src")
    case True
    have "skiplist mem src \<le> 3" by (rule skiplist_le3)
    with True have i3: "i < 3" by simp
    have "copy_from_loop i mem dst src a
          = copy_from_loop (Suc i) (mem(next_slot dst i := mem (next_slot src i))) dst src a"
      using True by (subst copy_from_loop.simps) simp
    also have "\<dots> = (mem(next_slot dst i := mem (next_slot src i))) a"
      using True "1.prems" by (intro "1.IH") simp_all
    also have "\<dots> = mem a"
      using "1.prems" [of i] i3 by simp
    finally show ?thesis .
  next
    case False
    then show ?thesis by (subst copy_from_loop.simps) simp
  qed
qed

lemma copy_from_size: "copy_from m dst src dst = m src"
  unfolding copy_from_def
  by (subst copy_from_loop_other) (simp_all add: next_slot_neq_self [THEN not_sym])

lemma fold_take_over_next_other:
  "a \<notin> next_slot dest ` set is \<Longrightarrow> a \<notin> (\<lambda>i. links lw ! i) ` set is
   \<Longrightarrow> fold (take_over_next lw dest src) is m a = m a"
  by (induction "is" arbitrary: m) (auto simp: take_over_next_def)

lemma fold_unlink_to_next_other:
  "a \<notin> (\<lambda>i. links lw ! i) ` set is \<Longrightarrow> fold (unlink_to_next lw e) is m a = m a"
  by (induction "is" arbitrary: m) (auto simp: unlink_to_next_def)

lemma fold_take_over_next_link:
  assumes "i \<in> set is" "distinct is"
    and "\<And>j k. j \<in> set is \<Longrightarrow> k \<in> set is \<Longrightarrow> j \<noteq> k \<Longrightarrow> links lw ! j \<noteq> links lw ! k"
    and "\<And>j k. j \<in> set is \<Longrightarrow> k \<in> set is \<Longrightarrow> links lw ! j \<noteq> next_slot dest k"
  shows "fold (take_over_next lw dest src) is m (links lw ! i) = dest"
  using assms
proof (induction "is" arbitrary: m)
  case Nil
  then show ?case by simp
next
  case (Cons x xs)
  show ?case
  proof (cases "i = x")
    case True
    have "fold (take_over_next lw dest src) xs (take_over_next lw dest src x m) (links lw ! x)
          = take_over_next lw dest src x m (links lw ! x)"
    proof (rule fold_take_over_next_other)
      show "links lw ! x \<notin> next_slot dest ` set xs"
        using Cons.prems(4) [of x] by auto
      show "links lw ! x \<notin> (\<lambda>i. links lw ! i) ` set xs"
        using Cons.prems(2) Cons.prems(3) [of x] by auto
    qed
    moreover have "take_over_next lw dest src x m (links lw ! x) = dest"
      by (simp add: take_over_next_def)
    ultimately show ?thesis using True by simp
  next
    case False
    with Cons.prems(1) have "i \<in> set xs" by simp
    moreover have "distinct xs" using Cons.prems(2) by simp
    ultimately have "fold (take_over_next lw dest src) xs (take_over_next lw dest src x m)
                       (links lw ! i) = dest"
      using Cons.prems(3,4) by (intro Cons.IH) simp_all
    then show ?thesis by simp
  qed
qed

lemma fold_unlink_to_next_link:
  assumes "i \<in> set is" "distinct is"
    and "\<And>j k. j \<in> set is \<Longrightarrow> k \<in> set is \<Longrightarrow> j \<noteq> k \<Longrightarrow> links lw ! j \<noteq> links lw ! k"
    and "\<And>j k. j \<in> set is \<Longrightarrow> k \<in> set is \<Longrightarrow> links lw ! j \<noteq> next_slot e k"
  shows "fold (unlink_to_next lw e) is m (links lw ! i) = m (next_slot e i)"
  using assms
proof (induction "is" arbitrary: m)
  case Nil
  then show ?case by simp
next
  case (Cons x xs)
  show ?case
  proof (cases "i = x")
    case True
    have "fold (unlink_to_next lw e) xs (unlink_to_next lw e x m) (links lw ! x)
          = unlink_to_next lw e x m (links lw ! x)"
    proof (rule fold_unlink_to_next_other)
      show "links lw ! x \<notin> (\<lambda>i. links lw ! i) ` set xs"
        using Cons.prems(2) Cons.prems(3) [of x] by auto
    qed
    moreover have "unlink_to_next lw e x m (links lw ! x) = m (next_slot e x)"
      by (simp add: unlink_to_next_def)
    ultimately show ?thesis using True by simp
  next
    case False
    with Cons.prems(1) have ixs: "i \<in> set xs" by simp
    moreover have "distinct xs" using Cons.prems(2) by simp
    ultimately have "fold (unlink_to_next lw e) xs (unlink_to_next lw e x m) (links lw ! i)
                     = unlink_to_next lw e x m (next_slot e i)"
      using Cons.prems(3,4) by (intro Cons.IH) simp_all
    moreover have "links lw ! x \<noteq> next_slot e i"
      using Cons.prems(4) [of x i] ixs by simp
    then have "unlink_to_next lw e x m (next_slot e i) = m (next_slot e i)"
      by (simp add: unlink_to_next_def)
    ultimately show ?thesis by simp
  qed
qed

lemma allocate_entire_block_loop_fold:
  "(\<And>j. j < 4 \<Longrightarrow> links lw ! j \<noteq> curr_block lw) \<Longrightarrow>
   allocate_entire_block_loop i m lw
   = fold (unlink_to_next lw (curr_block lw)) [i..<Suc (skiplist m (curr_block lw))] m"
proof (induction i m lw rule: allocate_entire_block_loop.induct)
  case (1 i mem lw)
  show ?case
  proof (cases "i \<le> skiplist mem (curr_block lw)")
    case True
    have "skiplist mem (curr_block lw) \<le> 3" by (rule skiplist_le3)
    with True have i4: "i < 4" by simp
    let ?m' = "unlink_to_next lw (curr_block lw) i mem"
    have same: "skiplist ?m' (curr_block lw) = skiplist mem (curr_block lw)"
      using "1.prems" [OF i4] by (simp add: skiplist_def unlink_to_next_def)
    have "allocate_entire_block_loop i mem lw = allocate_entire_block_loop (Suc i) ?m' lw"
      using True by (subst allocate_entire_block_loop.simps) simp
    also have "\<dots> = fold (unlink_to_next lw (curr_block lw))
                       [Suc i..<Suc (skiplist ?m' (curr_block lw))] ?m'"
      using True "1.prems" by (intro "1.IH") simp_all
    also have "\<dots> = fold (unlink_to_next lw (curr_block lw))
                       (i # [Suc i..<Suc (skiplist mem (curr_block lw))]) mem"
      by (simp only: same fold_simps)
    also have "i # [Suc i..<Suc (skiplist mem (curr_block lw))]
               = [i..<Suc (skiplist mem (curr_block lw))]"
      using True by (intro upt_conv_Cons [symmetric]) simp
    finally show ?thesis .
  next
    case False
    then show ?thesis by (subst allocate_entire_block_loop.simps) simp
  qed
qed


lemma not_in_imageI: "(\<And>j. j \<in> S \<Longrightarrow> f j \<noteq> a) \<Longrightarrow> a \<notin> f ` S"
  by blast

lemma next_slot_in_entry_words: "k < NUM_FREE_LISTS \<Longrightarrow> next_slot e k \<in> set (entry_words e)"
  by (simp add: entry_words_def)

lemma self_in_entry_words: "e \<in> set (entry_words e)"
  by (simp add: entry_words_def)

lemma allocate_current_whole:
  assumes len: "length (links lw) = NUM_FREE_LISTS"
    and dist: "distinct (links lw)"
    and sep: "set (links lw) \<inter> set (entry_words (curr_block lw)) = {}"
    and whole: "mem (curr_block lw) < sz + MIN_ALLOC_SIZE"
  shows "(\<forall>i \<le> which_skiplist_by_size (mem (curr_block lw)).
            fst (allocate_current mem tmp lw sz) (links lw ! i)
            = mem (next_slot (curr_block lw) i))
         \<and> (\<forall>a. (\<forall>i \<le> which_skiplist_by_size (mem (curr_block lw)). a \<noteq> links lw ! i)
                      \<longrightarrow> fst (allocate_current mem tmp lw sz) a = mem a)"
proof -
  let ?b = "curr_block lw"
  let ?L = "which_skiplist_by_size (mem ?b)"
  let ?is = "[0..<Suc ?L]"
  have L3: "?L \<le> 3" by (rule which_skiplist_le3)
  have lk_mem: "links lw ! j \<in> set (links lw)" if "j < 4" for j
    using that len by (simp add: NUM_FREE_LISTS_def)
  have lk_inj: "links lw ! j \<noteq> links lw ! k" if "j < 4" "k < 4" "j \<noteq> k" for j k
    using that dist len by (simp add: nth_eq_iff_index_eq NUM_FREE_LISTS_def)
  have lk_b: "links lw ! j \<noteq> ?b" if "j < 4" for j
    using lk_mem [OF that] sep self_in_entry_words [of ?b] by auto
  have lk_next: "links lw ! j \<noteq> next_slot ?b k" if "j < 4" "k < 4" for j k
    using lk_mem [OF that(1)] sep next_slot_in_entry_words [of k ?b] that(2)
    by (auto simp: NUM_FREE_LISTS_def)
  have res: "fst (allocate_current mem tmp lw sz) = fold (unlink_to_next lw ?b) ?is mem"
    using whole lk_b
    by (simp add: allocate_current_def allocate_entire_block_def
                  allocate_entire_block_loop_fold skiplist_def del: upt_Suc)
  have idx: "j < 4" if "j \<in> set ?is" for j
    using that L3 by auto
  have a: "fold (unlink_to_next lw ?b) ?is mem (links lw ! i) = mem (next_slot ?b i)"
    if "i \<le> ?L" for i
  proof (rule fold_unlink_to_next_link)
    show "i \<in> set ?is" using that by auto
    show "distinct ?is" by simp
    show "links lw ! j \<noteq> links lw ! k" if "j \<in> set ?is" "k \<in> set ?is" "j \<noteq> k" for j k
      using that idx lk_inj by blast
    show "links lw ! j \<noteq> next_slot ?b k" if "j \<in> set ?is" "k \<in> set ?is" for j k
      using that idx lk_next by blast
  qed
  have b: "fold (unlink_to_next lw ?b) ?is mem a = mem a"
    if "\<forall>i \<le> ?L. a \<noteq> links lw ! i" for a
  proof (rule fold_unlink_to_next_other, rule not_in_imageI)
    fix j assume "j \<in> set ?is"
    then have "j \<le> ?L" by auto
    with that show "links lw ! j \<noteq> a" by (simp add: not_sym)
  qed
  show ?thesis using a b by (simp add: res)
qed

lemma allocate_current_split:
  assumes fits: "fits_size mem lw sz"
    and len: "length (links lw) = NUM_FREE_LISTS"
    and dist: "distinct (links lw)"
    and sep: "set (links lw) \<inter> set (entry_words (curr_block lw + sz)) = {}"
    and split: "\<not> mem (curr_block lw) < sz + MIN_ALLOC_SIZE"
  shows "fst (allocate_current mem tmp lw sz) (curr_block lw + sz) = mem (curr_block lw) - sz
         \<and> (sz \<noteq> 0 \<longrightarrow>
              (\<forall>i \<le> which_skiplist_by_size (mem (curr_block lw) - sz).
                 fst (allocate_current mem tmp lw sz) (links lw ! i) = curr_block lw + sz))"
proof -
  let ?b = "curr_block lw"
  let ?dest = "?b + sz"
  let ?new = "mem ?b - sz"
  let ?m1 = "free_entry_copy mem tmp ?b"
  have m1_tmp: "?m1 tmp = mem ?b"
    by (simp add: free_entry_copy_def copy_from_size)
  have res: "fst (allocate_current mem tmp lw sz) = copy_and_resize ?m1 lw ?dest tmp ?new"
    using split by (simp add: allocate_current_def Let_def m1_tmp)
  have lk_mem: "links lw ! j \<in> set (links lw)" if "j < 4" for j
    using that len by (simp add: NUM_FREE_LISTS_def)
  have lk_inj: "links lw ! j \<noteq> links lw ! k" if "j < 4" "k < 4" "j \<noteq> k" for j k
    using that dist len by (simp add: nth_eq_iff_index_eq NUM_FREE_LISTS_def)
  have lk_dest: "links lw ! j \<noteq> ?dest" if "j < 4" for j
    using lk_mem [OF that] sep self_in_entry_words [of ?dest] by auto
  have lk_next: "links lw ! j \<noteq> next_slot ?dest k" if "j < 4" "k < 4" for j k
    using lk_mem [OF that(1)] sep next_slot_in_entry_words [of k ?dest] that(2)
    by (auto simp: NUM_FREE_LISTS_def)
  show ?thesis
  proof (cases "sz = 0")
    case True
    then have "copy_and_resize ?m1 lw ?dest tmp ?new ?dest = ?new"
      by (simp add: copy_and_resize_def m1_tmp copy_from_size)
    with True show ?thesis unfolding res by simp
  next
    case False
    then have ne: "?new \<noteq> ?m1 tmp" by (simp add: m1_tmp)
    let ?mA = "?m1(?dest := ?new)"
    let ?old = "skiplist ?mA tmp"
    let ?nw = "which_skiplist_by_size ?new"
    let ?is = "[0..<Suc ?nw]"
    let ?js = "[?nw + 1..<Suc ?old]"
    have nw: "skiplist ?mA ?dest = ?nw" by (simp add: skiplist_def)
    have nw3: "?nw \<le> 3" by (rule which_skiplist_le3)
    have old3: "?old \<le> 3" by (rule skiplist_le3)
    have "sz \<le> mem ?b" using fits by (simp add: fits_size_def)
    then have "?new \<le> mem ?b" by (rule word_sub_le)
    then have not_exp: "\<not> ?new > ?mA tmp"
      by (cases "tmp = ?dest") (simp_all add: m1_tmp)
    have res2: "fst (allocate_current mem tmp lw sz)
                = fold (unlink_to_next lw tmp) ?js (fold (take_over_next lw ?dest tmp) ?is ?mA)"
      using ne not_exp unfolding res copy_and_resize_def Let_def nw
      by (simp only: if_False)
    have idx: "j < 4" if "j \<in> set ?is" for j using that nw3 by auto
    have jdx: "j < 4 \<and> ?nw < j" if "j \<in> set ?js" for j using that old3 by auto
    have size_ok: "fst (allocate_current mem tmp lw sz) ?dest = ?new"
    proof -
      have "fold (unlink_to_next lw tmp) ?js (fold (take_over_next lw ?dest tmp) ?is ?mA) ?dest
            = fold (take_over_next lw ?dest tmp) ?is ?mA ?dest"
      proof (rule fold_unlink_to_next_other, rule not_in_imageI)
        fix j assume "j \<in> set ?js"
        then have "j < 4" using jdx by simp
        then show "links lw ! j \<noteq> ?dest" by (rule lk_dest)
      qed
      also have "\<dots> = ?mA ?dest"
      proof (rule fold_take_over_next_other)
        show "?dest \<notin> next_slot ?dest ` set ?is"
        proof (rule not_in_imageI)
          fix j assume "j \<in> set ?is"
          then have "j < 4" by (rule idx)
          then show "next_slot ?dest j \<noteq> ?dest" by (rule next_slot_neq_self)
        qed
        show "?dest \<notin> (\<lambda>i. links lw ! i) ` set ?is"
        proof (rule not_in_imageI)
          fix j assume "j \<in> set ?is"
          then have "j < 4" by (rule idx)
          then show "links lw ! j \<noteq> ?dest" by (rule lk_dest)
        qed
      qed
      also have "\<dots> = ?new" by simp
      finally show ?thesis unfolding res2 .
    qed
    have link_ok: "fst (allocate_current mem tmp lw sz) (links lw ! i) = ?dest"
      if "i \<le> ?nw" for i
    proof -
      have i4: "i < 4" using that nw3 by simp
      have "fold (unlink_to_next lw tmp) ?js (fold (take_over_next lw ?dest tmp) ?is ?mA)
              (links lw ! i)
            = fold (take_over_next lw ?dest tmp) ?is ?mA (links lw ! i)"
      proof (rule fold_unlink_to_next_other, rule not_in_imageI)
        fix j assume "j \<in> set ?js"
        then have "j < 4" "?nw < j" using jdx by simp_all
        with that have "j \<noteq> i" by simp
        with \<open>j < 4\<close> i4 show "links lw ! j \<noteq> links lw ! i" by (intro lk_inj)
      qed
      also have "\<dots> = ?dest"
      proof (rule fold_take_over_next_link)
        show "i \<in> set ?is" using that by auto
        show "distinct ?is" by simp
        show "links lw ! j \<noteq> links lw ! k" if "j \<in> set ?is" "k \<in> set ?is" "j \<noteq> k" for j k
          using that(3) idx [OF that(1)] idx [OF that(2)] by (intro lk_inj)
        show "links lw ! j \<noteq> next_slot ?dest k" if "j \<in> set ?is" "k \<in> set ?is" for j k
          using idx [OF that(1)] idx [OF that(2)] by (intro lk_next)
      qed
      finally show ?thesis unfolding res2 .
    qed
    from size_ok link_ok show ?thesis by blast
  qed
qed

section \<open>The size classifier\<close>

text \<open>
  C10: for every \<^verbatim>\<open>size_t\<close> value the classifier returns a level of at most 3, which is
  below \<^verbatim>\<open>NUM_FREE_LISTS\<close>, and it is monotone in the size. So an index \<open>i\<close> with
  \<open>i \<le> level(size)\<close>, as the loops of the mutators use it for \<^verbatim>\<open>next[i]\<close> and
  \<^verbatim>\<open>links[i]\<close>, is below \<^verbatim>\<open>NUM_FREE_LISTS\<close>, the length of both arrays; the walker's
  array of links has that length when it is made and keeps it when it moves.
\<close>

theorem which_skiplist_by_size_in_bounds:
  "which_skiplist_by_size s \<le> 3
   \<and> which_skiplist_by_size s < NUM_FREE_LISTS
   \<and> (s \<le> t \<longrightarrow> which_skiplist_by_size s \<le> which_skiplist_by_size t)
   \<and> (i \<le> which_skiplist_by_size s \<longrightarrow>
        i < NUM_FREE_LISTS
        \<and> i < length (links (get_walker mem sl k))
        \<and> length (links (move_next mem lw)) = length (links lw))"
  by (auto simp: which_skiplist_by_size_def NUM_FREE_LISTS_def get_walker_def
                 length_list_links length_links_move_next)

theorem which_skiplist_by_size_in_bounds_witness:
  "(100 :: 32 word) \<le> 2000
   \<and> 2 \<le> which_skiplist_by_size 100
   \<and> which_skiplist_by_size 100 \<le> which_skiplist_by_size 2000
   \<and> (2 :: nat) < NUM_FREE_LISTS
   \<and> 2 < length (links (get_walker (\<lambda>_. 0) 0x20000000 1))"
proof -
  have le: "(100 :: 32 word) \<le> 2000" by simp
  have idx: "2 \<le> which_skiplist_by_size 100" by (simp add: which_skiplist_by_size_def)
  from which_skiplist_by_size_in_bounds
         [of 100 2000 2 "\<lambda>_. 0" "0x20000000" 1 "get_walker (\<lambda>_. 0) 0x20000000 1"]
  have "(100 \<le> (2000 :: 32 word) \<longrightarrow> which_skiplist_by_size 100 \<le> which_skiplist_by_size 2000)
        \<and> (2 \<le> which_skiplist_by_size 100 \<longrightarrow>
             2 < NUM_FREE_LISTS \<and> 2 < length (links (get_walker (\<lambda>_. 0) 0x20000000 1)))"
    by blast
  with le idx show ?thesis by blast
qed

section \<open>A failed fallback of \<^verbatim>\<open>_realloc\<close>\<close>

text \<open>
  C9: \<open>p\<close> is the user pointer of a live allocation (not null, aligned, its block
  address \<open>p - MALLOC_HEADER_SIZE\<close> not null) and the request is for another size than
  the block has. If the in-place resize is refused (\<^verbatim>\<open>Skiplist::resize\<close> returns null)
  and the fallback \<^verbatim>\<open>Skiplist::malloc\<close> of the new size returns null, then
  \<^verbatim>\<open>_realloc\<close> returns null and the memory it leaves is the memory it was given: the
  header and payload of the old allocation, the heads and every free entry are
  unchanged.
\<close>

theorem realloc_fallback_exhausted_untouched:
  assumes live: "p \<noteq> 0" "UNALIGNED p = 0" "p - MALLOC_HEADER_SIZE \<noteq> 0"
    and req: "req_size \<noteq> 0"
    and differ: "ROUND_UP_TO_ALIGN req_size + MALLOC_HEADER_SIZE \<noteq> mem (p - MALLOC_HEADER_SIZE)"
    and refused: "Skiplist_resize fuel mem sl tmp (mem (p - MALLOC_HEADER_SIZE))
                    (ROUND_UP_TO_ALIGN req_size + MALLOC_HEADER_SIZE) (p - MALLOC_HEADER_SIZE)
                  = Some (m1, 0)"
    and exhausted: "Skiplist_malloc fuel m1 sl tmp
                      (ROUND_UP_TO_ALIGN req_size + MALLOC_HEADER_SIZE) = Some (m2, 0)"
  shows "pub_realloc fuel mem sl tmp req_size p = Some (mem, 0) \<and> m1 = mem \<and> m2 = mem"
proof -
  have m1: "m1 = mem"
    using refused live(3) by (rule Skiplist_resize_null_unchanged)
  have m2: "m2 = m1"
    using exhausted by (rule Skiplist_malloc_null_unchanged)
  show ?thesis
    using live req differ refused exhausted m1 m2
    by (simp add: pub_realloc_def Let_def)
qed

text \<open>
  The hypotheses hold for a block of 16 bytes at \<open>0x1000\<close> when no block is free:
  a request for 100 bytes can neither grow it in place nor be served elsewhere.
\<close>

theorem realloc_fallback_exhausted_untouched_witness:
  "(0x1008 :: addr) \<noteq> 0 \<and> UNALIGNED 0x1008 = 0 \<and> 0x1008 - MALLOC_HEADER_SIZE \<noteq> 0
   \<and> (100 :: 32 word) \<noteq> 0
   \<and> ROUND_UP_TO_ALIGN 100 + MALLOC_HEADER_SIZE
        \<noteq> ((\<lambda>_. 0)(0x1000 := 16)) (0x1008 - MALLOC_HEADER_SIZE)
   \<and> Skiplist_resize 1 ((\<lambda>_. 0)(0x1000 := 16)) 0x20000000 0x2001F000
        (((\<lambda>_. 0)(0x1000 := 16)) (0x1008 - MALLOC_HEADER_SIZE))
        (ROUND_UP_TO_ALIGN 100 + MALLOC_HEADER_SIZE) (0x1008 - MALLOC_HEADER_SIZE)
      = Some ((\<lambda>_. 0)(0x1000 := 16), 0)
   \<and> Skiplist_malloc 1 ((\<lambda>_. 0)(0x1000 := 16)) 0x20000000 0x2001F000
        (ROUND_UP_TO_ALIGN 100 + MALLOC_HEADER_SIZE)
      = Some ((\<lambda>_. 0)(0x1000 := 16), 0)
   \<and> pub_realloc 1 ((\<lambda>_. 0)(0x1000 := 16)) 0x20000000 0x2001F000 100 0x1008
      = Some ((\<lambda>_. 0)(0x1000 := 16), 0)"
proof -
  let ?mem = "(\<lambda>_. 0)(0x1000 := 16) :: memory"
  have sizes: "MALLOC_HEADER_SIZE = 8" "ROUND_UP_TO_ALIGN 100 = 100"
    by (simp_all add: MALLOC_HEADER_SIZE_def SIZEOF_SIZE_T_def ROUND_UP_TO_ALIGN_def
                      ALIGNMENT_MASK_def ALIGNMENT_def)
  have h1: "(0x1008 :: addr) \<noteq> 0" by simp
  have h2: "UNALIGNED 0x1008 = 0"
    by (simp add: UNALIGNED_def ALIGNMENT_MASK_def ALIGNMENT_def SIZEOF_SIZE_T_def)
  have h3: "(0x1008 :: addr) - MALLOC_HEADER_SIZE \<noteq> 0" by (simp add: sizes)
  have h4: "(100 :: 32 word) \<noteq> 0" by simp
  have h5: "ROUND_UP_TO_ALIGN 100 + MALLOC_HEADER_SIZE \<noteq> ?mem (0x1008 - MALLOC_HEADER_SIZE)"
    by (simp add: sizes)
  have h6: "Skiplist_resize 1 ?mem 0x20000000 0x2001F000 (?mem (0x1008 - MALLOC_HEADER_SIZE))
              (ROUND_UP_TO_ALIGN 100 + MALLOC_HEADER_SIZE) (0x1008 - MALLOC_HEADER_SIZE)
            = Some (?mem, 0)"
    by (simp add: sizes Skiplist_resize_def resize_at_walker_def get_walker_def
                  which_skiplist_by_size_def head_slot_def SIZEOF_SIZE_T_def)
  have h7: "Skiplist_malloc 1 ?mem 0x20000000 0x2001F000
              (ROUND_UP_TO_ALIGN 100 + MALLOC_HEADER_SIZE) = Some (?mem, 0)"
    by (simp add: sizes Skiplist_malloc_def get_walker_def
                  which_skiplist_by_size_def head_slot_def SIZEOF_SIZE_T_def)
  from realloc_fallback_exhausted_untouched [OF h1 h2 h3 h4 h5 h6 h7]
  have "pub_realloc 1 ?mem 0x20000000 0x2001F000 100 0x1008 = Some (?mem, 0)"
    by blast
  with h1 h2 h3 h4 h5 h6 h7 show ?thesis by blast
qed

section \<open>Allocating from the chosen block\<close>

text \<open>
  The test of \<^verbatim>\<open>allocate_current\<close> is made on \<^verbatim>\<open>size_t\<close> values; where
  \<open>size + MIN_ALLOC_SIZE\<close> does not wrap around it is the comparison of the numbers.
\<close>

lemma whole_block_condition_nat:
  "unat sz + 8 < 2 ^ 32 \<Longrightarrow> (x < sz + MIN_ALLOC_SIZE) = (unat x < unat sz + 8)"
  by (simp add: MIN_ALLOC_SIZE_def word_less_nat_alt unat_word_ariths)

text \<open>
  What \<^verbatim>\<open>allocate_current\<close> does get right. It is called on a walker whose current
  block \<open>b\<close> fits the request \<open>sz\<close>; the walker has its four link slots, they are
  different slots, and none of them lies inside the header of \<open>b\<close> or of the block
  that would start at \<open>b + sz\<close>. Then the caller receives the address of \<open>b\<close>, and
  \<^item> if \<open>b.size < sz + MIN_ALLOC_SIZE\<close> the whole block is taken: on every list
    \<open>i \<le> level(b.size)\<close> the slot \<open>links[i]\<close> now holds \<open>b.next[i]\<close>, and no word
    other than these slots changes;
  \<^item> otherwise the word at \<open>b + sz\<close> is the size \<open>b.size - sz\<close>, and (for
    \<open>sz \<noteq> 0\<close>) on every list \<open>i \<le> level(b.size - sz)\<close> the slot \<open>links[i]\<close> points
    at \<open>b + sz\<close>.
  Nothing is said here about the forward pointers of the block at \<open>b + sz\<close>: see
  the last subsection of this theory.
\<close>

lemma allocate_current_size_and_links:
  assumes fits: "fits_size mem lw sz"
    and len: "length (links lw) = NUM_FREE_LISTS"
    and dist: "distinct (links lw)"
    and sep_curr: "set (links lw) \<inter> set (entry_words (curr_block lw)) = {}"
    and sep_new: "set (links lw) \<inter> set (entry_words (curr_block lw + sz)) = {}"
  shows "snd (allocate_current mem tmp lw sz) = curr_block lw
         \<and> (if mem (curr_block lw) < sz + MIN_ALLOC_SIZE
            then (\<forall>i \<le> which_skiplist_by_size (mem (curr_block lw)).
                    fst (allocate_current mem tmp lw sz) (links lw ! i)
                    = mem (next_slot (curr_block lw) i))
                 \<and> (\<forall>a. (\<forall>i \<le> which_skiplist_by_size (mem (curr_block lw)). a \<noteq> links lw ! i)
                      \<longrightarrow> fst (allocate_current mem tmp lw sz) a = mem a)
            else fst (allocate_current mem tmp lw sz) (curr_block lw + sz)
                 = mem (curr_block lw) - sz
                 \<and> (sz \<noteq> 0 \<longrightarrow>
                      (\<forall>i \<le> which_skiplist_by_size (mem (curr_block lw) - sz).
                         fst (allocate_current mem tmp lw sz) (links lw ! i)
                         = curr_block lw + sz)))"
proof (intro conjI)
  show "snd (allocate_current mem tmp lw sz) = curr_block lw"
    by (rule snd_allocate_current)
next
  show "if mem (curr_block lw) < sz + MIN_ALLOC_SIZE
        then (\<forall>i \<le> which_skiplist_by_size (mem (curr_block lw)).
                fst (allocate_current mem tmp lw sz) (links lw ! i)
                = mem (next_slot (curr_block lw) i))
             \<and> (\<forall>a. (\<forall>i \<le> which_skiplist_by_size (mem (curr_block lw)). a \<noteq> links lw ! i)
                      \<longrightarrow> fst (allocate_current mem tmp lw sz) a = mem a)
        else fst (allocate_current mem tmp lw sz) (curr_block lw + sz)
             = mem (curr_block lw) - sz
             \<and> (sz \<noteq> 0 \<longrightarrow>
                  (\<forall>i \<le> which_skiplist_by_size (mem (curr_block lw) - sz).
                     fst (allocate_current mem tmp lw sz) (links lw ! i)
                     = curr_block lw + sz))"
  proof (cases "mem (curr_block lw) < sz + MIN_ALLOC_SIZE")
    case True
    show ?thesis
      unfolding if_P [OF True]
      by (rule allocate_current_whole
            [where lw = lw and mem = mem and sz = sz, OF len dist sep_curr True])
  next
    case False
    show ?thesis
      unfolding if_not_P [OF False]
      by (rule allocate_current_split
            [where lw = lw and mem = mem and sz = sz, OF fits len dist sep_new False])
  qed
qed

section \<open>Where the code departs from its description\<close>

subsection \<open>\<^verbatim>\<open>_malloc\<close> on an exhausted arena\<close>

text \<open>
  C1: \<^verbatim>\<open>_malloc\<close> is to return null for a request of 0 bytes and when no free block
  is large enough, and then to write nothing. The first half holds. For the second,
  take the heap with no free block and a request of 1 byte (12 bytes with the
  header): \<^verbatim>\<open>Skiplist::malloc\<close> returns null and \<^verbatim>\<open>_malloc\<close>, which has no test
  for it, stores the size through that pointer, so the word at address 0 becomes 12,
  and returns \<open>0 + MALLOC_HEADER_SIZE = 8\<close>. \<^verbatim>\<open>_calloc\<close> has the test and returns
  null on the same input.
\<close>

theorem malloc_exhausted_writes_through_null:
  "pub_malloc 1 (\<lambda>_. 0) 0x20000000 0x2001F000 0 = Some (\<lambda>_. 0, 0)
   \<and> Skiplist_malloc 1 (\<lambda>_. 0) 0x20000000 0x2001F000 12 = Some (\<lambda>_. 0, 0)
   \<and> pub_malloc 1 (\<lambda>_. 0) 0x20000000 0x2001F000 1 = Some ((\<lambda>_. 0)(0 := 12), 8)
   \<and> pub_calloc 1 (\<lambda>_. 0) 0x20000000 0x2001F000 1 = Some (\<lambda>_. 0, 0)"
  by (simp add: pub_malloc_def pub_calloc_def Skiplist_malloc_def get_walker_def
                ROUND_UP_TO_ALIGN_def ALIGNMENT_MASK_def ALIGNMENT_def MALLOC_HEADER_SIZE_def
                SIZEOF_SIZE_T_def which_skiplist_by_size_def)

subsection \<open>\<^verbatim>\<open>_realloc\<close> after a resize in place\<close>

text \<open>
  C2: when the resize in place succeeds, \<^verbatim>\<open>_realloc\<close> is to return the user pointer
  it was given and to leave the new total size in the header. Take the live block
  of 32 bytes at \<open>0x1000\<close> (user pointer \<open>0x1008\<close>) with nothing free, and shrink it
  to 8 bytes (16 with the header; the difference of 16 is at least
  \<^verbatim>\<open>MIN_ALLOC_SIZE\<close>). \<^verbatim>\<open>Skiplist::resize\<close> succeeds and returns the block address
  \<open>0x1000\<close>; \<^verbatim>\<open>_realloc\<close> returns that value, which is the address of the header and
  not \<open>0x1008\<close>, and the header still reads 32.
\<close>

theorem realloc_in_place_returns_block_address:
  "ROUND_UP_TO_ALIGN 8 + MALLOC_HEADER_SIZE = 16
   \<and> heap_live_only (0x1008 - MALLOC_HEADER_SIZE) = 32
   \<and> map_option snd (Skiplist_resize 1 heap_live_only 0x20000000 0x2001F000 32 16 0x1000)
       = Some 0x1000
   \<and> map_option snd (pub_realloc 1 heap_live_only 0x20000000 0x2001F000 8 0x1008)
       = Some 0x1000
   \<and> map_option (\<lambda>r. fst r (0x1008 - MALLOC_HEADER_SIZE))
        (pub_realloc 1 heap_live_only 0x20000000 0x2001F000 8 0x1008) = Some 32"
  by code_simp

subsection \<open>Shrinking in place next to a free block\<close>

text \<open>
  C3: when a block is shrunk in place and a free block follows it, the header of
  that neighbour is to move down by \<open>old_size - new_size\<close> and its size is to grow
  by the same amount. Take the live block of 32 bytes at \<open>0x1000\<close> followed by the
  free block of 64 bytes at \<open>0x1020\<close>, and shrink the live block to 16 bytes. The
  header of the neighbour does move down by 16, to \<open>0x1010\<close> (the heads of lists 0
  and 1 point there), but \<^verbatim>\<open>resize_allocated_block\<close> passes
  \<^verbatim>\<open>temp.size - size_diff\<close> as its new size: it becomes \<open>64 - 16 = 48\<close> and not
  \<open>64 + 16 = 80\<close>.
\<close>

theorem resize_shrink_neighbour_size_decreases:
  "heap_live_then_free 0x1000 = 32
   \<and> heap_live_then_free (0x1000 + 32) = 64
   \<and> map_option (\<lambda>r. (snd r, map (fst r) [head_slot 0x20000000 0, head_slot 0x20000000 1,
                                         0x1020 - (32 - 16)]))
        (Skiplist_resize 1 heap_live_then_free 0x20000000 0x2001F000 32 16 0x1000)
      = Some (0x1000, [0x1010, 0x1010, 64 - 16])"
  by code_simp

subsection \<open>Bytes that leave the books\<close>

text \<open>
  C4: after every public operation the sizes of the free blocks and of the live
  blocks are to add up to the length of the arena. Take the arena of 96 bytes at
  \<open>0x1000\<close> made of the live block of 32 bytes and the free block of 64 bytes, and
  call \<^verbatim>\<open>_realloc\<close> for 8 bytes on the live block. Afterwards list 0 holds one
  block, at \<open>0x1010\<close>, of 48 bytes, and the header of the live block still reads 32:
  80 bytes are accounted for (64 if the live block is counted with its new size of
  16). A second way: \<^verbatim>\<open>_malloc\<close> of 4 bytes (12 with the header) on the arena of
  16 bytes that is one free block takes the whole block and records 12 bytes; list 0
  is left empty.
\<close>

theorem realloc_shrink_loses_bytes:
  "map heap_live_then_free [head_slot 0x20000000 0, 0x1020, next_slot 0x1020 0, 0x1000]
     = [0x1020, 64, 0, 32]
   \<and> map_option (\<lambda>r. map (fst r) [head_slot 0x20000000 0, 0x1010, next_slot 0x1010 0, 0x1000])
        (pub_realloc 1 heap_live_then_free 0x20000000 0x2001F000 8 0x1008)
      = Some [0x1010, 48, 0, 32]
   \<and> map heap_one_block [head_slot 0x20000000 0, 0x1000, next_slot 0x1000 0] = [0x1000, 16, 0]
   \<and> map_option (\<lambda>r. (snd r, map (fst r) [head_slot 0x20000000 0, 0x1000]))
        (pub_malloc 1 heap_one_block 0x20000000 0x2001F000 4)
      = Some (0x1008, [0, 12])"
  by code_simp

subsection \<open>Links that stay behind\<close>

text \<open>
  C5: after \<^verbatim>\<open>move_next\<close> every \<open>links[i]\<close> is to point at the first block of list
  \<open>i\<close> at or after the current block. \<^verbatim>\<open>advance_links\<close> moves each link by at most
  one block (an \<^verbatim>\<open>if\<close>, not a loop). Take the free blocks of 16, 8, 8 and 32 bytes at
  \<open>0x1000\<close>, \<open>0x1100\<close>, \<open>0x1200\<close> and \<open>0x1300\<close> and a walker on list 1. It starts at
  \<open>0x1000\<close>; one \<^verbatim>\<open>move_next\<close> takes it to \<open>0x1300\<close>, over the two small blocks, and
  \<open>links[0]\<close> becomes the slot \<open>next[0]\<close> of the block at \<open>0x1000\<close>, which points
  at \<open>0x1100\<close>, below the current block. \<^verbatim>\<open>_malloc\<close> of 12 bytes (20 with the
  header) makes just this walk, splits the block at \<open>0x1300\<close> and writes the address
  of the remainder, \<open>0x1314\<close>, into that slot: the blocks at \<open>0x1100\<close> and
  \<open>0x1200\<close> are no longer on list 0.
\<close>

theorem move_next_leaves_link_behind:
  "curr_block (get_walker heap_small_between 0x20000000 1) = 0x1000
   \<and> curr_block (move_next heap_small_between (get_walker heap_small_between 0x20000000 1))
       = 0x1300
   \<and> links (move_next heap_small_between (get_walker heap_small_between 0x20000000 1)) ! 0
       = next_slot 0x1000 0
   \<and> heap_small_between (next_slot 0x1000 0) = 0x1100
   \<and> (0x1100 :: addr) < 0x1300
   \<and> map_option (\<lambda>r. (snd r, fst r (head_slot 0x20000000 0), fst r (next_slot 0x1000 0)))
        (pub_malloc 2 heap_small_between 0x20000000 0x2001F000 12)
      = Some (0x1308, 0x1000, 0x1314)"
  by code_simp

subsection \<open>The snapshot of a header\<close>

text \<open>
  C6: the temporary copy of a free header is to keep the size and the forward
  pointers \<open>next[0..level(size)]\<close>, the last one included, so that the lists come out
  as if the old block were removed and the new one inserted. \<^verbatim>\<open>copy_from\<close> copies
  \<open>next[i]\<close> for \<open>i < level(size)\<close> only. Take the free blocks of 64 bytes (level 2)
  at \<open>0x1000\<close> and \<open>0x2000\<close>: the copy of the first has the size and \<open>next[0]\<close>,
  \<open>next[1]\<close>, but its \<open>next[2]\<close> is what the stack held (\<open>0xDEADBEEF\<close>) and not
  \<open>0x2000\<close>. \<^verbatim>\<open>_malloc\<close> of 8 bytes splits the first block; the remainder of 48 bytes
  is of level 1 and leaves list 2, whose head is set from the copy: it becomes
  \<open>0xDEADBEEF\<close>, where removing the old block would have left \<open>0x2000\<close>.
\<close>

theorem copy_from_drops_top_pointer:
  "which_skiplist_by_size (heap_two_large 0x1000) = 2
   \<and> map heap_two_large [0x1000, next_slot 0x1000 0, next_slot 0x1000 1, next_slot 0x1000 2]
       = [64, 0x2000, 0x2000, 0x2000]
   \<and> map (free_entry_copy heap_two_large 0x2001F000 0x1000)
         [0x2001F000, next_slot 0x2001F000 0, next_slot 0x2001F000 1, next_slot 0x2001F000 2]
       = [64, 0x2000, 0x2000, 0xDEADBEEF]
   \<and> map_option (\<lambda>r. (snd r, map (fst r) [0x1010, head_slot 0x20000000 1,
                                         head_slot 0x20000000 2]))
        (pub_malloc 1 heap_two_large 0x20000000 0x2001F000 8)
      = Some (0x1008, [48, 0x1010, 0xDEADBEEF])"
  by code_simp

subsection \<open>\<^verbatim>\<open>_free\<close> after \<^verbatim>\<open>_malloc\<close>\<close>

text \<open>
  C7: freeing at once what \<^verbatim>\<open>_malloc\<close> returned is to restore the free blocks as
  they were. Take the free blocks of 8 bytes at \<open>0x1000\<close> and 16 bytes at \<open>0x1100\<close>:
  list 0 is \<open>0x1000, 0x1100\<close> and list 1 is \<open>0x1100\<close>. \<^verbatim>\<open>_malloc\<close> of 8 bytes (16
  with the header) walks list 1, whose first block fits exactly; the walker's
  \<open>links[0]\<close> is still the head of list 0, and taking the block writes its
  \<open>next[0]\<close>, null, there. The call returns \<open>0x1108\<close>. After \<^verbatim>\<open>_free\<close> of that
  pointer list 0 is \<open>0x1100\<close> alone: the block at \<open>0x1000\<close>, untouched itself, is on
  no list.
\<close>

theorem free_after_malloc_loses_block:
  "map heap_small_then_exact
       [head_slot 0x20000000 0, next_slot 0x1000 0, next_slot 0x1100 0, head_slot 0x20000000 1]
     = [0x1000, 0x1100, 0, 0x1100]
   \<and> map_option (\<lambda>r. (snd r, fst r (head_slot 0x20000000 0)))
        (pub_malloc 1 heap_small_then_exact 0x20000000 0x2001F000 8)
      = Some (0x1108, 0)
   \<and> map_option
        (\<lambda>r. map_option
                (\<lambda>m. map m [head_slot 0x20000000 0, next_slot 0x1100 0, head_slot 0x20000000 1,
                             0x1000, next_slot 0x1000 0])
                (pub_free 1 (fst r) 0x20000000 (snd r)))
        (pub_malloc 1 heap_small_then_exact 0x20000000 0x2001F000 8)
      = Some (Some [0x1100, 0, 0x1100, 8, 0x1100])"
  by code_simp

subsection \<open>The block left by a split\<close>

text \<open>
  C8: an allocation of \<open>s\<close> bytes from the chosen block \<open>b\<close> is to take the whole
  block if \<open>b.size < s + MIN_ALLOC_SIZE\<close> and otherwise to split it: the caller
  receives \<open>b\<close> and a new free block of \<open>b.size - s\<close> bytes is created at \<open>b + s\<close>,
  in the place of \<open>b\<close> on the lists. The choice of the branch, the address returned,
  the size of the new block and the slots that point at it are as described (see
  \<open>allocate_current_size_and_links\<close>). The forward pointers of the new block are
  not: they come from the temporary copy of \<open>b\<close>, which lacks \<open>next[level(b.size)]\<close>
  (the defect of C6). Take the free blocks of 4096 bytes at \<open>0x1000\<close> and 2048 bytes
  at \<open>0x3000\<close>, both on all four lists, and the walk of \<^verbatim>\<open>Skiplist::malloc(48)\<close>,
  which stops at the first block. The block is split, \<open>0x1000\<close> is returned, the
  word at \<open>0x1030\<close> is 4048 and all four heads point there; \<open>next[0..2]\<close> of the new
  block are \<open>0x3000\<close>, but its \<open>next[3]\<close> is the word the stack held
  (\<open>0xDEADBEEF\<close>) and not \<open>0x3000\<close>: list 3 no longer reaches the second block.
  \<^verbatim>\<open>_malloc(40)\<close> is this call; on a fresh arena of one block it leaves the same
  word in \<open>next[3]\<close> of the only free block, where null belongs, and with another
  word on the stack that other word.
\<close>

theorem allocate_current_split_top_pointer_from_stack:
  "map heap_arena_and_block
       [0x1000, next_slot 0x1000 0, next_slot 0x1000 1, next_slot 0x1000 2, next_slot 0x1000 3]
     = [4096, 0x3000, 0x3000, 0x3000, 0x3000]
   \<and> heap_arena_and_block (next_slot 0x2001F000 3) = 0xDEADBEEF
   \<and> curr_block (get_walker heap_arena_and_block 0x20000000 (which_skiplist_by_size 48)) = 0x1000
   \<and> fits_size heap_arena_and_block
         (get_walker heap_arena_and_block 0x20000000 (which_skiplist_by_size 48)) 48
   \<and> \<not> heap_arena_and_block 0x1000 < 48 + MIN_ALLOC_SIZE
   \<and> which_skiplist_by_size (4096 - 48) = 3
   \<and> snd (allocate_current heap_arena_and_block 0x2001F000
             (get_walker heap_arena_and_block 0x20000000 (which_skiplist_by_size 48)) 48)
       = 0x1000
   \<and> map (fst (allocate_current heap_arena_and_block 0x2001F000
                  (get_walker heap_arena_and_block 0x20000000 (which_skiplist_by_size 48)) 48))
         [0x1000 + 48, next_slot (0x1000 + 48) 0, next_slot (0x1000 + 48) 1,
          next_slot (0x1000 + 48) 2, next_slot (0x1000 + 48) 3,
          head_slot 0x20000000 0, head_slot 0x20000000 1, head_slot 0x20000000 2,
          head_slot 0x20000000 3]
       = [4096 - 48, 0x3000, 0x3000, 0x3000, 0xDEADBEEF, 0x1030, 0x1030, 0x1030, 0x1030]
   \<and> map_option (\<lambda>r. (snd r, map (fst r) [0x1030, next_slot 0x1030 2, next_slot 0x1030 3]))
        (pub_malloc 1 heap_arena_and_block 0x20000000 0x2001F000 40)
      = Some (0x1008, [4048, 0x3000, 0xDEADBEEF])
   \<and> map_option (\<lambda>r. (snd r, map (fst r) [0x1030, next_slot 0x1030 2, next_slot 0x1030 3,
                                         head_slot 0x20000000 3]))
        (pub_malloc 1 heap_fresh_arena 0x20000000 0x2001F000 40)
      = Some (0x1008, [4048, 0, 0xDEADBEEF, 0x1030])
   \<and> map_option (\<lambda>r. fst r (next_slot 0x1030 3))
        (pub_malloc 1 (heap_fresh_arena(next_slot 0x2001F000 3 := 0x12345678))
           0x20000000 0x2001F000 40)
      = Some 0x12345678"
  by code_simp

end
